theory Spec2Isabelle
  imports Complex_Main "HOL-Library.Char_ord" "HOL-Library.List_Lexorder"
begin

section \<open>One-hot encoding of a data frame column (helpers/onehot_encode.py)\<close>

text \<open>
  The function under study is
  \<^verbatim>\<open>
  def onehot_encode(df, column_name):
      categories = [f"{column_name}_{value}" for value in df[column_name].unique()]
      df = df.drop(categories, axis=1, errors="ignore")
      temp_column_name = f"{column_name}_Temp"
      df[temp_column_name] = df[column_name]
      df = pd.get_dummies(df, prefix=column_name, columns=[temp_column_name], dtype=float)
      return df, categories
  \<close>
  Every step is a call into pandas, so the embedding first fixes the fragment of pandas
  the function uses and then transliterates the five statements.
\<close>

subsection \<open>Cells and columns\<close>

text \<open>
  A cell as Python sees it when it iterates over a column: a string, an integer, a
  boolean, a float, or one of the two missing markers (\<open>float('nan')\<close> and
  \<open>None\<close>). Finite floats are carried as reals; signed zeros and infinities are
  outside the model.
\<close>

datatype val = VStr string | VInt int | VBool bool | VFloat real | VNaN | VNone

text \<open>
  A column is homogeneous, as a pandas column with a dtype is: an object column of
  strings (where a missing cell is \<open>None\<close> or NaN), an int64 column, a bool column
  (neither can hold a missing cell), or a float64 column (where \<open>None\<close> stands for
  NaN).
\<close>

datatype str_cell = Text string | NoneCell | NaNCell

datatype column =
    ObjectCol "str_cell list"
  | Int64Col "int list"
  | BoolCol "bool list"
  | Float64Col "real option list"

fun str_cell_val :: "str_cell \<Rightarrow> val" where
  "str_cell_val (Text s) = VStr s"
| "str_cell_val NoneCell = VNone"
| "str_cell_val NaNCell = VNaN"

fun float_cell_val :: "real option \<Rightarrow> val" where
  "float_cell_val (Some r) = VFloat r"
| "float_cell_val None = VNaN"

text \<open>The cells of a column, top to bottom.\<close>

fun cells :: "column \<Rightarrow> val list" where
  "cells (ObjectCol xs) = map str_cell_val xs"
| "cells (Int64Col xs) = map VInt xs"
| "cells (BoolCol xs) = map VBool xs"
| "cells (Float64Col xs) = map float_cell_val xs"

text \<open>\<open>pandas.isna\<close> on a cell.\<close>

fun isna :: "val \<Rightarrow> bool" where
  "isna VNaN = True"
| "isna VNone = True"
| "isna _ = False"

subsection \<open>Formatting a cell in an f-string\<close>

definition digit_char :: "nat \<Rightarrow> char" where
  "digit_char d = char_of (48 + d)"

fun nat_str :: "nat \<Rightarrow> string" where
  "nat_str n = (if n < 10 then [digit_char n] else nat_str (n div 10) @ [digit_char (n mod 10)])"

declare nat_str.simps [simp del]

definition int_str :: "int \<Rightarrow> string" where
  "int_str i = (if i < 0 then CHR ''-'' # nat_str (nat (- i)) else nat_str (nat i))"

text \<open>
  \<open>f"{value}"\<close>. Python prints a float by its shortest round-trip decimal, which is
  not modelled: the function \<open>float_str\<close> that does it is a parameter of the
  development.
\<close>

fun stringify :: "(real \<Rightarrow> string) \<Rightarrow> val \<Rightarrow> string" where
  "stringify float_str (VStr s) = s"
| "stringify float_str (VInt i) = int_str i"
| "stringify float_str (VBool b) = (if b then ''True'' else ''False'')"
| "stringify float_str (VFloat r) = float_str r"
| "stringify float_str VNaN = ''nan''"
| "stringify float_str VNone = ''None''"

text \<open>
  What Python prints for a float of whole value below \<open>10^16\<close> in magnitude
  (\<open>1.0\<close>, \<open>-3.0\<close>); used where an example needs a concrete \<open>float_str\<close>.
\<close>

definition whole_float_str :: "real \<Rightarrow> string" where
  "whole_float_str r = int_str \<lfloor>r\<rfloor> @ ''.0''"

text \<open>\<open>f"{column_name}_{value}"\<close>, also \<open>f"{prefix}{prefix_sep}{level}"\<close> of pandas.\<close>

definition category_name :: "(real \<Rightarrow> string) \<Rightarrow> string \<Rightarrow> val \<Rightarrow> string" where
  "category_name float_str column_name v = column_name @ ''_'' @ stringify float_str v"

subsection \<open>The fragment of pandas\<close>

text \<open>
  A data frame is its columns in order, each under its label. All columns of a frame
  have the same number of cells and the labels are taken to be distinct (\<open>wf_df\<close>);
  the row index is positional.
\<close>

type_synonym dataframe = "(string \<times> column) list"

definition col_len :: "column \<Rightarrow> nat" where
  "col_len col = length (cells col)"

definition labels :: "dataframe \<Rightarrow> string list" where
  "labels df = map fst df"

definition wf_df :: "dataframe \<Rightarrow> nat \<Rightarrow> bool" where
  "wf_df df n = (distinct (labels df) \<and> list_all (\<lambda>(l, col). col_len col = n) df)"

definition nrows :: "dataframe \<Rightarrow> nat" where
  "nrows df = (case df of [] \<Rightarrow> 0 | (l, col) # _ \<Rightarrow> col_len col)"

datatype error = KeyError

text \<open>\<open>df[label]\<close>: the column under the label, KeyError (here \<open>None\<close>) without one.\<close>

fun getitem :: "dataframe \<Rightarrow> string \<Rightarrow> column option" where
  "getitem [] label = None"
| "getitem ((l, col) # df) label = (if l = label then Some col else getitem df label)"

text \<open>
  \<open>Series.unique()\<close>: a scan with a hash table, which keeps a value the first time
  it is met. NaN counts as a value like any other and is met once.
\<close>

fun unique_from :: "'a list \<Rightarrow> 'a list \<Rightarrow> 'a list" where
  "unique_from seen [] = []"
| "unique_from seen (x # xs) =
     (if x \<in> set seen then unique_from seen xs else x # unique_from (x # seen) xs)"

definition unique :: "'a list \<Rightarrow> 'a list" where
  "unique xs = unique_from [] xs"

text \<open>\<open>df.drop(names, axis=1, errors="ignore")\<close>: a new frame without the named columns.\<close>

definition drop_cols :: "string list \<Rightarrow> dataframe \<Rightarrow> dataframe" where
  "drop_cols names df = filter (\<lambda>(l, col). l \<notin> set names) df"

text \<open>
  \<open>df[label] = column\<close>: an existing column is replaced where it stands, a new one
  is appended.
\<close>

definition setitem :: "dataframe \<Rightarrow> string \<Rightarrow> column \<Rightarrow> dataframe" where
  "setitem df label col =
     (if label \<in> set (labels df)
      then map (\<lambda>(l, old). if l = label then (l, col) else (l, old)) df
      else df @ [(label, col)])"

fun texts :: "str_cell list \<Rightarrow> string list" where
  "texts [] = []"
| "texts (Text s # xs) = s # texts xs"
| "texts (_ # xs) = texts xs"

fun floats :: "real option list \<Rightarrow> real list" where
  "floats [] = []"
| "floats (Some r # xs) = r # floats xs"
| "floats (None # xs) = floats xs"

text \<open>
  The categories \<open>get_dummies\<close> derives from a column (\<open>factorize_from_iterable\<close>,
  which builds a \<open>Categorical\<close>): the distinct values that are not missing, in
  ascending order (strings by code point, numbers by value, False before True).
\<close>

fun levels :: "column \<Rightarrow> val list" where
  "levels (ObjectCol xs) = map VStr (sort (remdups (texts xs)))"
| "levels (Int64Col xs) = map VInt (sort (remdups xs))"
| "levels (BoolCol xs) = map VBool (sort (remdups xs))"
| "levels (Float64Col xs) = map VFloat (sort (remdups (floats xs)))"

text \<open>
  One indicator column for a level, with \<open>dtype=float\<close>: 1.0 in the rows that hold
  the level and 0.0 elsewhere (the rows of code -1, the missing ones, are all 0.0).
\<close>

definition indicator :: "column \<Rightarrow> val \<Rightarrow> column" where
  "indicator col level = Float64Col (map (\<lambda>v. Some (if v = level then 1 else 0)) (cells col))"

text \<open>\<open>_get_dummies_1d(col, prefix, prefix_sep="_", dummy_na=False, dtype=float)\<close>.\<close>

definition get_dummies_1d :: "(real \<Rightarrow> string) \<Rightarrow> column \<Rightarrow> string \<Rightarrow> dataframe" where
  "get_dummies_1d float_str col prefix =
     map (\<lambda>level. (category_name float_str prefix level, indicator col level)) (levels col)"

text \<open>
  \<open>pd.get_dummies(data, prefix=prefix, columns=columns, dtype=float)\<close> with a string
  prefix: \<open>data[columns]\<close> raises KeyError for a label that is not there; the result
  is the frame without the encoded columns, followed by the indicator columns of each
  encoded column in turn.
\<close>

definition get_dummies ::
  "(real \<Rightarrow> string) \<Rightarrow> dataframe \<Rightarrow> string \<Rightarrow> string list \<Rightarrow> error + dataframe" where
  "get_dummies float_str data prefix columns =
     (if \<not> set columns \<subseteq> set (labels data) then Inl KeyError
      else Inr (drop_cols columns data @
                concat (map (\<lambda>label. case getitem data label of
                                         None \<Rightarrow> []
                                       | Some col \<Rightarrow> get_dummies_1d float_str col prefix)
                            columns)))"

subsection \<open>The function\<close>

definition temp_column_name :: "string \<Rightarrow> string" where
  "temp_column_name column_name = column_name @ ''_Temp''"

definition onehot_encode ::
  "(real \<Rightarrow> string) \<Rightarrow> dataframe \<Rightarrow> string \<Rightarrow> error + (dataframe \<times> string list)" where
  "onehot_encode float_str df column_name =
     (case getitem df column_name of
        None \<Rightarrow> Inl KeyError
      | Some col \<Rightarrow>
          let categories = map (category_name float_str column_name) (unique (cells col));
              df1 = drop_cols categories df
          in (case getitem df1 column_name of
                None \<Rightarrow> Inl KeyError
              | Some col1 \<Rightarrow>
                  let df2 = setitem df1 (temp_column_name column_name) col1
                  in (case get_dummies float_str df2 column_name [temp_column_name column_name] of
                        Inl e \<Rightarrow> Inl e
                      | Inr df3 \<Rightarrow> Inr (df3, categories))))"

subsection \<open>The function on a store of objects\<close>

text \<open>
  Python passes the data frame by reference, and \<open>df[...] = ...\<close> writes into the
  object the variable \<open>df\<close> refers to. To say which object is written, the same five
  statements are run on a store: a list of data frames, an object's address being its
  position. \<open>drop\<close> and \<open>get_dummies\<close> build a new object; the assignment of a
  column updates the object at the address held by \<open>df\<close>, which at that point is the
  one \<open>drop\<close> returned.
\<close>

type_synonym store = "dataframe list"

definition alloc :: "store \<Rightarrow> dataframe \<Rightarrow> store \<times> nat" where
  "alloc h obj = (h @ [obj], length h)"

definition onehot_encode_store ::
  "(real \<Rightarrow> string) \<Rightarrow> store \<Rightarrow> nat \<Rightarrow> string \<Rightarrow> store \<times> (error + (nat \<times> string list))" where
  "onehot_encode_store float_str h df column_name =
     (case getitem (h ! df) column_name of
        None \<Rightarrow> (h, Inl KeyError)
      | Some col \<Rightarrow>
          let categories = map (category_name float_str column_name) (unique (cells col));
              (h1, df1) = alloc h (drop_cols categories (h ! df))
          in (case getitem (h1 ! df1) column_name of
                None \<Rightarrow> (h1, Inl KeyError)
              | Some col1 \<Rightarrow>
                  let h2 = h1[df1 := setitem (h1 ! df1) (temp_column_name column_name) col1]
                  in (case get_dummies float_str (h2 ! df1) column_name
                             [temp_column_name column_name] of
                        Inl e \<Rightarrow> (h2, Inl e)
                      | Inr obj \<Rightarrow>
                          let (h3, df3) = alloc h2 obj
                          in (h3, Inr (df3, categories)))))"

subsection \<open>Notions the properties are stated with\<close>

text \<open>The position at which a value first appears in a list.\<close>

fun first_index :: "'a list \<Rightarrow> 'a \<Rightarrow> nat" where
  "first_index [] x = 0"
| "first_index (y # ys) x = (if y = x then 0 else Suc (first_index ys x))"


text \<open>Row \<open>r\<close> of a frame: the cell of each column, under the column's label.\<close>

definition row_of :: "dataframe \<Rightarrow> nat \<Rightarrow> (string \<times> val) list" where
  "row_of df r = map (\<lambda>(l, col). (l, cells col ! r)) df"

text \<open>The labels of the columns that hold 1.0 in row \<open>r\<close>.\<close>

definition hot_at :: "dataframe \<Rightarrow> nat \<Rightarrow> string list" where
  "hot_at df r = map fst (filter (\<lambda>(l, v). v = VFloat 1) (row_of df r))"

text \<open>The input columns that reach the result: all but the like-named ones.\<close>

definition kept :: "(real \<Rightarrow> string) \<Rightarrow> dataframe \<Rightarrow> string \<Rightarrow> column \<Rightarrow> dataframe" where
  "kept float_str df column_name col =
     drop_cols (temp_column_name column_name #
                map (category_name float_str column_name) (unique (cells col))) df"

subsection \<open>Example frames\<close>

definition colours :: dataframe where
  "colours = [(''id'', Int64Col [1, 2, 3]),
              (''color'', ObjectCol [Text ''red'', Text ''blue'', Text ''red''])]"

text \<open>
  The same frame as a caller may hand it over a second time: with a column left under
  a category's name and a column under the temporary name.
\<close>

definition stale :: dataframe where
  "stale = [(''id'', Int64Col [1, 2, 3]),
            (''color_red'', Float64Col [Some 0, Some 0, Some 0]),
            (''color'', ObjectCol [Text ''red'', Text ''blue'', Text ''red'']),
            (''color_Temp'', BoolCol [True, False, True])]"

definition sizes :: dataframe where
  "sizes = [(''size'', ObjectCol [Text ''M'', NaNCell, Text ''L''])]"

definition grades :: dataframe where
  "grades = [(''grade'', ObjectCol [Text ''a'', NoneCell])]"

definition modes :: dataframe where
  "modes = [(''mode'', ObjectCol [Text ''Temp'', Text ''Perm''])]"

section \<open>Properties\<close>

subsection \<open>Looking columns up\<close>


lemma getitem_None_iff: "getitem df l = None \<longleftrightarrow> l \<notin> set (labels df)"
proof (induction df)
  case Nil
  show ?case by (simp add: labels_def)
next
  case (Cons p df)
  obtain a b where p: "p = (a, b)" by (cases p)
  show ?case using Cons by (simp add: p labels_def)
qed

lemma getitem_Some_mem: "getitem df l = Some col \<Longrightarrow> (l, col) \<in> set df"
proof (induction df)
  case Nil
  then show ?case by simp
next
  case (Cons p df)
  obtain a b where p: "p = (a, b)" by (cases p)
  show ?case using Cons by (cases "a = l") (simp_all add: p)
qed

lemma getitem_distinct:
  "distinct (labels df) \<Longrightarrow> (l, col) \<in> set df \<Longrightarrow> getitem df l = Some col"
proof (induction df)
  case Nil
  then show ?case by simp
next
  case (Cons p df)
  obtain a b where p: "p = (a, b)" by (cases p)
  show ?case
  proof (cases "a = l")
    case True
    have "l \<notin> fst ` set df" using Cons.prems(1) True by (simp add: p labels_def)
    then have "(l, col) \<notin> set df" by force
    then show ?thesis using Cons.prems(2) True by (simp add: p)
  next
    case False
    then show ?thesis using Cons by (simp add: p labels_def)
  qed
qed

lemma getitem_drop_cols:
  "getitem (drop_cols names df) l = (if l \<in> set names then None else getitem df l)"
proof (induction df)
  case Nil
  show ?case by (simp add: drop_cols_def)
next
  case (Cons p df)
  obtain a b where p: "p = (a, b)" by (cases p)
  show ?case using Cons by (auto simp: p drop_cols_def)
qed

lemma getitem_append:
  "getitem (df @ df') l = (case getitem df l of None \<Rightarrow> getitem df' l | Some col \<Rightarrow> Some col)"
proof (induction df)
  case Nil
  show ?case by simp
next
  case (Cons p df)
  obtain a b where p: "p = (a, b)" by (cases p)
  show ?case using Cons by (simp add: p)
qed

lemma getitem_replace:
  "l \<in> set (labels df) \<Longrightarrow>
   getitem (map (\<lambda>(l', old). if l' = l then (l', col) else (l', old)) df) l = Some col"
proof (induction df)
  case Nil
  then show ?case by (simp add: labels_def)
next
  case (Cons p df)
  obtain a b where p: "p = (a, b)" by (cases p)
  show ?case using Cons by (cases "a = l") (simp_all add: p labels_def)
qed

lemma getitem_setitem_same: "getitem (setitem df l col) l = Some col"
proof (cases "l \<in> set (labels df)")
  case True
  then show ?thesis by (simp add: setitem_def getitem_replace)
next
  case False
  then have "getitem df l = None" by (simp add: getitem_None_iff)
  with False show ?thesis by (simp add: setitem_def getitem_append)
qed


lemma category_name_neq: "category_name f c v \<noteq> c"
  by (simp add: category_name_def)

lemma temp_column_name_neq: "temp_column_name c \<noteq> c"
  by (simp add: temp_column_name_def)

lemma labels_drop_cols: "labels (drop_cols names df) = filter (\<lambda>l. l \<notin> set names) (labels df)"
proof (induction df)
  case Nil
  show ?case by (simp add: drop_cols_def labels_def)
next
  case (Cons p df)
  obtain a b where p: "p = (a, b)" by (cases p)
  show ?case using Cons by (simp add: p drop_cols_def labels_def)
qed

lemma labels_replace:
  "labels (map (\<lambda>(l', old). if l' = l then (l', col) else (l', old)) df) = labels df"
proof (induction df)
  case Nil
  show ?case by (simp add: labels_def)
next
  case (Cons p df)
  obtain a b where p: "p = (a, b)" by (cases p)
  show ?case using Cons by (simp add: p labels_def)
qed

lemma labels_setitem: "set (labels (setitem df l col)) = insert l (set (labels df))"
proof (cases "l \<in> set (labels df)")
  case True
  then show ?thesis by (auto simp: setitem_def labels_replace)
next
  case False
  then show ?thesis by (simp add: setitem_def labels_def)
qed

lemma drop_cols_replace:
  "drop_cols [l] (map (\<lambda>(l', old). if l' = l then (l', col) else (l', old)) df) = drop_cols [l] df"
proof (induction df)
  case Nil
  show ?case by (simp add: drop_cols_def)
next
  case (Cons p df)
  obtain a b where p: "p = (a, b)" by (cases p)
  show ?case using Cons by (cases "a = l") (simp_all add: p drop_cols_def)
qed

lemma drop_cols_setitem: "drop_cols [l] (setitem df l col) = drop_cols [l] df"
proof (cases "l \<in> set (labels df)")
  case True
  then show ?thesis by (simp add: setitem_def drop_cols_replace)
next
  case False
  then show ?thesis by (simp add: setitem_def drop_cols_def)
qed

lemma drop_cols_drop_cols: "drop_cols xs (drop_cols ys df) = drop_cols (xs @ ys) df"
proof (induction df)
  case Nil
  show ?case by (simp add: drop_cols_def)
next
  case (Cons p df)
  obtain a b where p: "p = (a, b)" by (cases p)
  show ?case using Cons by (simp add: p drop_cols_def)
qed

text \<open>
  The shape of every successful call: the input columns other than the like-named
  ones, then the indicator columns of the encoded column.
\<close>

lemma onehot_encode_Inr:
  assumes "getitem df c = Some col"
  shows "onehot_encode f df c =
         Inr (kept f df c col @ get_dummies_1d f col c,
              map (category_name f c) (unique (cells col)))"
proof -
  let ?cats = "map (category_name f c) (unique (cells col))"
  let ?df1 = "drop_cols ?cats df"
  let ?t = "temp_column_name c"
  have c: "c \<notin> set ?cats"
  proof
    assume "c \<in> set ?cats"
    then obtain v where "c = category_name f c v" by auto
    then show False using category_name_neq [of f c v] by simp
  qed
  have g1: "getitem ?df1 c = Some col" using assms c by (simp add: getitem_drop_cols)
  have gd: "get_dummies f (setitem ?df1 ?t col) c [?t] =
            Inr (drop_cols [?t] ?df1 @ get_dummies_1d f col c)"
    by (simp add: get_dummies_def labels_setitem getitem_setitem_same drop_cols_setitem)
  show ?thesis
    using assms g1 gd by (simp add: onehot_encode_def Let_def kept_def drop_cols_drop_cols)
qed

subsection \<open>Distinct values and levels\<close>

lemma set_unique_from: "set (unique_from seen xs) = set xs - set seen"
  by (induction xs arbitrary: seen) auto

lemma distinct_unique_from: "distinct (unique_from seen xs)"
  by (induction xs arbitrary: seen) (auto simp: set_unique_from)

lemma set_unique: "set (unique xs) = set xs"
  by (simp add: unique_def set_unique_from)

lemma distinct_unique: "distinct (unique xs)"
  by (simp add: unique_def distinct_unique_from)

lemma first_index_unique_from:
  "sorted_wrt (\<lambda>a b. first_index xs a < first_index xs b) (unique_from seen xs)"
proof (induction xs arbitrary: seen)
  case Nil
  show ?case by simp
next
  case (Cons x xs)
  have step: "sorted_wrt (\<lambda>a b. first_index (x # xs) a < first_index (x # xs) b) (unique_from s xs)"
    if "x \<in> set s" for s
  proof (rule sorted_wrt_mono_rel [OF _ Cons.IH [of s]])
    fix a b
    assume "a \<in> set (unique_from s xs)" "b \<in> set (unique_from s xs)"
      and "first_index xs a < first_index xs b"
    moreover from this that have "a \<noteq> x" "b \<noteq> x" by (auto simp: set_unique_from)
    ultimately show "first_index (x # xs) a < first_index (x # xs) b" by auto
  qed
  show ?case
  proof (cases "x \<in> set seen")
    case True
    then show ?thesis using step [of seen] by simp
  next
    case False
    have "\<forall>b \<in> set (unique_from (x # seen) xs). first_index (x # xs) x < first_index (x # xs) b"
      by (auto simp: set_unique_from)
    then show ?thesis using False step [of "x # seen"] by simp
  qed
qed

lemma first_index_unique:
  "sorted_wrt (\<lambda>a b. first_index xs a < first_index xs b) (unique xs)"
  by (simp add: unique_def first_index_unique_from)

lemma set_texts: "set (texts xs) = {s. Text s \<in> set xs}"
  by (induction xs rule: texts.induct) auto

lemma set_floats: "set (floats xs) = {r. Some r \<in> set xs}"
  by (induction xs rule: floats.induct) auto

lemma isna_str_cell_val: "isna (str_cell_val x) \<longleftrightarrow> (\<forall>s. x \<noteq> Text s)"
  by (cases x) auto

lemma isna_float_cell_val: "isna (float_cell_val x) \<longleftrightarrow> x = None"
  by (cases x) auto

lemma set_levels: "set (levels col) = {v \<in> set (cells col). \<not> isna v}"
proof (cases col)
  case (ObjectCol xs)
  have "VStr ` {s. Text s \<in> set xs} = {v \<in> str_cell_val ` set xs. \<not> isna v}"
  proof (intro set_eqI iffI)
    fix v assume "v \<in> VStr ` {s. Text s \<in> set xs}"
    then obtain s where "v = VStr s" "Text s \<in> set xs" by auto
    then have "v = str_cell_val (Text s)" "\<not> isna v" by auto
    with \<open>Text s \<in> set xs\<close> show "v \<in> {v \<in> str_cell_val ` set xs. \<not> isna v}" by blast
  next
    fix v assume "v \<in> {v \<in> str_cell_val ` set xs. \<not> isna v}"
    then obtain x where x: "x \<in> set xs" "v = str_cell_val x" "\<not> isna v" by auto
    then obtain s where "x = Text s" by (auto simp: isna_str_cell_val)
    with x show "v \<in> VStr ` {s. Text s \<in> set xs}" by auto
  qed
  then show ?thesis by (simp add: ObjectCol set_texts)
next
  case (Int64Col xs)
  then show ?thesis by auto
next
  case (BoolCol xs)
  then show ?thesis by auto
next
  case (Float64Col xs)
  have "VFloat ` {r. Some r \<in> set xs} = {v \<in> float_cell_val ` set xs. \<not> isna v}"
  proof (intro set_eqI iffI)
    fix v assume "v \<in> VFloat ` {r. Some r \<in> set xs}"
    then obtain r where "v = VFloat r" "Some r \<in> set xs" by auto
    then have "v = float_cell_val (Some r)" "\<not> isna v" by auto
    with \<open>Some r \<in> set xs\<close> show "v \<in> {v \<in> float_cell_val ` set xs. \<not> isna v}" by blast
  next
    fix v assume "v \<in> {v \<in> float_cell_val ` set xs. \<not> isna v}"
    then obtain x where x: "x \<in> set xs" "v = float_cell_val x" "\<not> isna v" by auto
    then obtain r where "x = Some r" by (auto simp: isna_float_cell_val)
    with x show "v \<in> VFloat ` {r. Some r \<in> set xs}" by auto
  qed
  then show ?thesis by (simp add: Float64Col set_floats)
qed



subsection \<open>Claims\<close>

text \<open>
  Claim C5. On a frame with distinct labels the call fails if and only if the named
  column is not among the frame's columns; the failure is the KeyError of the first
  lookup, and with the column present the call returns a table and a list of names.
\<close>

theorem keyerror_iff_column_absent:
  assumes "wf_df df n"
  shows "(onehot_encode f df c = Inl KeyError \<longleftrightarrow> c \<notin> set (labels df)) \<and>
         (c \<in> set (labels df) \<longrightarrow> (\<exists>T cats. onehot_encode f df c = Inr (T, cats)))"
proof (cases "getitem df c")
  case None
  then have "c \<notin> set (labels df)" by (simp add: getitem_None_iff)
  moreover from None have "onehot_encode f df c = Inl KeyError" by (simp add: onehot_encode_def)
  ultimately show ?thesis by simp
next
  case (Some col)
  then have "c \<in> set (labels df)" using getitem_None_iff [of df c] by simp
  moreover note onehot_encode_Inr [OF Some, of f]
  ultimately show ?thesis by simp
qed

text \<open>The frame with columns id and color: asking for size fails, asking for color succeeds.\<close>

theorem keyerror_iff_column_absent_witness:
  "wf_df colours 3 \<and> onehot_encode whole_float_str colours ''size'' = Inl KeyError \<and>
   (\<exists>T cats. onehot_encode whole_float_str colours ''color'' = Inr (T, cats))"
proof -
  have wf: "wf_df colours 3" by (simp add: wf_df_def colours_def labels_def col_len_def)
  have "''size'' \<notin> set (labels colours)" "''color'' \<in> set (labels colours)"
    by (simp_all add: colours_def labels_def)
  then show ?thesis
    using wf keyerror_iff_column_absent [OF wf, of whole_float_str "''size''"]
      keyerror_iff_column_absent [OF wf, of whole_float_str "''color''"]
    by simp
qed

subsection \<open>The columns of the result\<close>

lemma getitem_kept:
  assumes "getitem df c = Some col"
  shows "getitem (kept f df c col) c = Some col"
proof -
  have "c \<notin> set (map (category_name f c) (unique (cells col)))"
  proof
    assume "c \<in> set (map (category_name f c) (unique (cells col)))"
    then obtain v where "c = category_name f c v" by auto
    then show False using category_name_neq [of f c v] by simp
  qed
  then show ?thesis
    using assms temp_column_name_neq [of c] by (simp add: kept_def getitem_drop_cols)
qed

lemma labels_get_dummies_1d:
  "labels (get_dummies_1d f col c) = map (category_name f c) (levels col)"
  by (simp add: get_dummies_1d_def labels_def comp_def)

lemma wf_df_col_len:
  assumes "wf_df df n" "getitem df c = Some col"
  shows "length (cells col) = n"
proof -
  have "(c, col) \<in> set df" using assms(2) by (rule getitem_Some_mem)
  then show ?thesis using assms(1) by (auto simp: wf_df_def list_all_iff col_len_def)
qed

subsection \<open>Claim C1\<close>

text \<open>
  Claim C1 says that the column that was encoded is absent from the result. The
  function copies it under the temporary name so that \<open>get_dummies\<close> consumes the
  copy: the original column stays. On the frame with columns id and color, encoding
  color returns the columns id, color, color_blue, color_red.
\<close>

theorem original_column_removed_counterexample:
  "onehot_encode whole_float_str colours ''color'' =
     Inr ([(''id'', Int64Col [1, 2, 3]),
           (''color'', ObjectCol [Text ''red'', Text ''blue'', Text ''red'']),
           (''color_blue'', Float64Col [Some 0, Some 1, Some 0]),
           (''color_red'', Float64Col [Some 1, Some 0, Some 1])],
          [''color_red'', ''color_blue''])"
  by code_simp

text \<open>
  Claim C1, as the function is written: the result still holds the encoded column
  under its label, with the cells it had.
\<close>

theorem original_column_kept:
  assumes "wf_df df n" and "getitem df c = Some col"
  shows "\<exists>T cats. onehot_encode f df c = Inr (T, cats) \<and> getitem T c = Some col"
  using onehot_encode_Inr [OF assms(2), of f] getitem_kept [OF assms(2), of f]
  by (simp add: getitem_append)

theorem original_column_kept_witness:
  "wf_df colours 3 \<and>
   getitem colours ''color'' = Some (ObjectCol [Text ''red'', Text ''blue'', Text ''red'']) \<and>
   (\<exists>T cats. onehot_encode whole_float_str colours ''color'' = Inr (T, cats) \<and>
      getitem T ''color'' = Some (ObjectCol [Text ''red'', Text ''blue'', Text ''red'']))"
proof -
  have wf: "wf_df colours 3" by (simp add: wf_df_def colours_def labels_def col_len_def)
  have g: "getitem colours ''color'' = Some (ObjectCol [Text ''red'', Text ''blue'', Text ''red''])"
    by (simp add: colours_def)
  show ?thesis using wf g original_column_kept [OF wf g, of whole_float_str] by simp
qed

subsection \<open>Claim C2\<close>




subsection \<open>Claim C7\<close>

text \<open>
  Claim C7. The second component of the result is the list of the names
  \<open>column_name + "_" + stringify(value)\<close>, for the distinct values of the column (a
  missing value among them) in the order in which they first appear.
\<close>

theorem categories_first_appearance:
  assumes "wf_df df n" and "getitem df c = Some col"
  shows "\<exists>T vals. onehot_encode f df c = Inr (T, map (\<lambda>v. c @ ''_'' @ stringify f v) vals) \<and>
                  distinct vals \<and> set vals = set (cells col) \<and>
                  sorted_wrt (\<lambda>a b. first_index (cells col) a < first_index (cells col) b) vals"
proof -
  have "map (category_name f c) (unique (cells col)) =
        map (\<lambda>v. c @ ''_'' @ stringify f v) (unique (cells col))"
    by (simp add: category_name_def)
  then show ?thesis
    using onehot_encode_Inr [OF assms(2), of f] distinct_unique [of "cells col"]
      set_unique [of "cells col"] first_index_unique [of "cells col"]
    by metis
qed

theorem categories_first_appearance_witness:
  "wf_df colours 3 \<and>
   getitem colours ''color'' = Some (ObjectCol [Text ''red'', Text ''blue'', Text ''red'']) \<and>
   (\<exists>T vals. onehot_encode whole_float_str colours ''color'' =
               Inr (T, map (\<lambda>v. ''color'' @ ''_'' @ stringify whole_float_str v) vals) \<and>
             distinct vals \<and> set vals = {VStr ''red'', VStr ''blue''})"
proof -
  have wf: "wf_df colours 3" by (simp add: wf_df_def colours_def labels_def col_len_def)
  have g: "getitem colours ''color'' = Some (ObjectCol [Text ''red'', Text ''blue'', Text ''red''])"
    by (simp add: colours_def)
  have "set (cells (ObjectCol [Text ''red'', Text ''blue'', Text ''red''])) =
        {VStr ''red'', VStr ''blue''}"
    by auto
  then show ?thesis
    using wf g categories_first_appearance [OF wf g, of whole_float_str] by metis
qed

subsection \<open>The cells of the indicator columns\<close>

lemma cells_indicator:
  "cells (indicator col u) = map (\<lambda>v. VFloat (if v = u then 1 else 0)) (cells col)"
  by (simp add: indicator_def)

lemma row_of_get_dummies_1d:
  assumes "r < length (cells col)"
  shows "row_of (get_dummies_1d f col c) r =
         map (\<lambda>u. (category_name f c u, VFloat (if cells col ! r = u then 1 else 0))) (levels col)"
  using assms by (simp add: row_of_def get_dummies_1d_def cells_indicator comp_def)

subsection \<open>Claim C3\<close>

text \<open>
  Claim C3. A missing value is to be a category of its own, with an indicator column
  of its own. The function goes half of the way: the list it returns, built from
  \<open>unique()\<close>, names the missing value, while \<open>get_dummies\<close>, called without
  \<open>dummy_na\<close>, builds no column under that name. For the sizes M, NaN, L the call
  does not fail, the returned list is size_M, size_nan, size_L, and the table has the
  columns size, size_L, size_M: the list names a column that the table does not have.
\<close>

theorem missing_value_listed_without_column:
  "onehot_encode whole_float_str sizes ''size'' =
     Inr ([(''size'', ObjectCol [Text ''M'', NaNCell, Text ''L'']),
           (''size_L'', Float64Col [Some 0, Some 0, Some 1]),
           (''size_M'', Float64Col [Some 1, Some 0, Some 0])],
          [''size_M'', ''size_nan'', ''size_L'']) \<and>
   map_sum id (map_prod labels id) (onehot_encode whole_float_str sizes ''size'') =
     Inr ([''size'', ''size_L'', ''size_M''], [''size_M'', ''size_nan'', ''size_L''])"
  by code_simp

subsection \<open>Claim C4\<close>

text \<open>
  Claim C4. Every indicator cell is to be the float 0.0 or 1.0, and each row is to
  have exactly one indicator column at 1.0, the one of its value. For the reason seen
  at claim C3 a row whose value is missing has none: for the grades a, None the
  returned list names grade_a and grade_None, the only indicator column is grade_a,
  and in the second row it holds 0.0.
\<close>

theorem missing_row_without_hot_indicator:
  "onehot_encode whole_float_str grades ''grade'' =
     Inr ([(''grade'', ObjectCol [Text ''a'', NoneCell]),
           (''grade_a'', Float64Col [Some 1, Some 0])],
          [''grade_a'', ''grade_None'']) \<and>
   hot_at [(''grade_a'', Float64Col [Some 1, Some 0])] 1 = []"
  by code_simp

subsection \<open>Claim C9\<close>

lemma row_of_append: "row_of (df @ df') r = row_of df r @ row_of df' r"
  by (simp add: row_of_def)

lemma row_of_drop_cols:
  "row_of (drop_cols names df) r = filter (\<lambda>(l, v). l \<notin> set names) (row_of df r)"
proof (induction df)
  case Nil
  show ?case by (simp add: row_of_def drop_cols_def)
next
  case (Cons p df)
  obtain a b where p: "p = (a, b)" by (cases p)
  show ?case using Cons by (simp add: p row_of_def drop_cols_def)
qed

lemma col_len_drop_cols:
  "list_all (\<lambda>(l, x). col_len x = n) df \<Longrightarrow> list_all (\<lambda>(l, x). col_len x = n) (drop_cols names df)"
  by (auto simp: list_all_iff drop_cols_def)

lemma col_len_get_dummies_1d:
  "list_all (\<lambda>(l, x). col_len x = length (cells col)) (get_dummies_1d f col c)"
  by (simp add: list_all_iff get_dummies_1d_def col_len_def cells_indicator)

lemma nrows_col_len:
  "list_all (\<lambda>(l, x). col_len x = n) df \<Longrightarrow> df \<noteq> [] \<Longrightarrow> nrows (df @ df') = n"
  by (cases df) (auto simp: nrows_def)

text \<open>
  Claim C9. The result has as many rows as the input, in the same order: every column
  of the result has the input's number of cells, and row \<open>r\<close> of the result is row
  \<open>r\<close> of the input without the dropped columns, followed by the indicator cells
  computed from the value the encoded column holds in row \<open>r\<close>.
\<close>

theorem rows_preserved:
  assumes "wf_df df n" and "getitem df c = Some col"
  shows "\<exists>T cats. onehot_encode f df c = Inr (T, cats) \<and>
           list_all (\<lambda>(l, x). col_len x = n) T \<and> nrows T = nrows df \<and>
           (\<forall>r < n. row_of T r =
              filter (\<lambda>(l, v). l \<notin> set (temp_column_name c # cats)) (row_of df r) @
              map (\<lambda>u. (category_name f c u, VFloat (if cells col ! r = u then 1 else 0)))
                (levels col))"
proof -
  let ?cats = "map (category_name f c) (unique (cells col))"
  let ?T = "kept f df c col @ get_dummies_1d f col c"
  have len: "length (cells col) = n" using assms by (rule wf_df_col_len)
  have all: "list_all (\<lambda>(l, x). col_len x = n) df" using assms(1) by (simp add: wf_df_def)
  then have k: "list_all (\<lambda>(l, x). col_len x = n) (kept f df c col)"
    unfolding kept_def by (rule col_len_drop_cols)
  have "list_all (\<lambda>(l, x). col_len x = n) (get_dummies_1d f col c)"
    using col_len_get_dummies_1d [of col f c] by (simp add: len)
  with k have 1: "list_all (\<lambda>(l, x). col_len x = n) ?T" by simp
  have "(c, col) \<in> set (kept f df c col)"
    using getitem_kept [OF assms(2), of f] by (rule getitem_Some_mem)
  then have "kept f df c col \<noteq> []" by auto
  then have "nrows ?T = n" using k by (rule nrows_col_len [rotated])
  moreover have "df \<noteq> []" using assms(2) by auto
  then have "nrows df = n" using nrows_col_len [OF all, of "[]"] by simp
  ultimately have 2: "nrows ?T = nrows df" by simp
  have 3: "\<forall>r < n. row_of ?T r =
              filter (\<lambda>(l, v). l \<notin> set (temp_column_name c # ?cats)) (row_of df r) @
              map (\<lambda>u. (category_name f c u, VFloat (if cells col ! r = u then 1 else 0)))
                (levels col)"
    using len by (simp add: row_of_append row_of_get_dummies_1d kept_def row_of_drop_cols)
  show ?thesis
    using onehot_encode_Inr [OF assms(2), of f] 1 2 3 by blast
qed

theorem rows_preserved_witness:
  "wf_df colours 3 \<and>
   getitem colours ''color'' = Some (ObjectCol [Text ''red'', Text ''blue'', Text ''red'']) \<and>
   (\<exists>T cats. onehot_encode whole_float_str colours ''color'' = Inr (T, cats) \<and>
      nrows T = 3 \<and> list_all (\<lambda>(l, x). col_len x = 3) T)"
proof -
  have wf: "wf_df colours 3" by (simp add: wf_df_def colours_def labels_def col_len_def)
  have g: "getitem colours ''color'' = Some (ObjectCol [Text ''red'', Text ''blue'', Text ''red''])"
    by (simp add: colours_def)
  have "nrows colours = 3" by (simp add: nrows_def colours_def col_len_def)
  then show ?thesis
    using wf g rows_preserved [OF wf g, of whole_float_str] by metis
qed

subsection \<open>Claim C10\<close>

lemma category_name_temp:
  "category_name f c u = temp_column_name c \<Longrightarrow> stringify f u = ''Temp''"
  by (simp add: category_name_def temp_column_name_def)

lemma getitem_get_dummies_1d:
  assumes "getitem (get_dummies_1d f col c) l = Some x"
  shows "\<exists>u \<in> set (levels col). category_name f c u = l \<and> x = indicator col u"
proof -
  have "(l, x) \<in> set (get_dummies_1d f col c)" using assms by (rule getitem_Some_mem)
  then show ?thesis by (auto simp: get_dummies_1d_def)
qed

lemma getitem_kept_temp: "getitem (kept f df c col) (temp_column_name c) = None"
  by (simp add: kept_def getitem_drop_cols)

text \<open>
  Claim C10 says that the result never has a column under the temporary name. It has
  one when a value of the column prints as Temp: the indicator column of that value.
  Encoding mode, with the values Temp and Perm, returns a column mode_Temp.
\<close>

theorem temp_column_absent_counterexample:
  "onehot_encode whole_float_str modes ''mode'' =
     Inr ([(''mode'', ObjectCol [Text ''Temp'', Text ''Perm'']),
           (''mode_Perm'', Float64Col [Some 0, Some 1]),
           (''mode_Temp'', Float64Col [Some 1, Some 0])],
          [''mode_Temp'', ''mode_Perm''])"
  by code_simp

text \<open>
  Claim C10, as the function is written: a column of the result under the temporary
  name can only be the indicator column of a value that prints as Temp, and without
  such a value there is none; whatever the input held under that name is gone.
\<close>

theorem temp_column_consumed:
  assumes "wf_df df n" and "getitem df c = Some col"
  shows "\<exists>T cats. onehot_encode f df c = Inr (T, cats) \<and>
           (\<forall>x. getitem T (temp_column_name c) = Some x \<longrightarrow>
                (\<exists>u \<in> set (levels col). stringify f u = ''Temp'' \<and> x = indicator col u)) \<and>
           ((\<forall>u \<in> set (levels col). stringify f u \<noteq> ''Temp'') \<longrightarrow>
                temp_column_name c \<notin> set (labels T))"
proof -
  let ?T = "kept f df c col @ get_dummies_1d f col c"
  let ?t = "temp_column_name c"
  have 1: "\<exists>u \<in> set (levels col). stringify f u = ''Temp'' \<and> x = indicator col u"
    if "getitem ?T ?t = Some x" for x
  proof -
    from that have "getitem (get_dummies_1d f col c) ?t = Some x"
      by (simp add: getitem_append getitem_kept_temp)
    then obtain u where "u \<in> set (levels col)" "category_name f c u = ?t" "x = indicator col u"
      using getitem_get_dummies_1d by blast
    then show ?thesis using category_name_temp by blast
  qed
  have 2: "?t \<notin> set (labels ?T)" if "\<forall>u \<in> set (levels col). stringify f u \<noteq> ''Temp''"
  proof
    assume "?t \<in> set (labels ?T)"
    then obtain x where "getitem ?T ?t = Some x"
      using getitem_None_iff [of ?T ?t] by auto
    then show False using 1 that by blast
  qed
  show ?thesis
    using onehot_encode_Inr [OF assms(2), of f] 1 2 by blast
qed

theorem temp_column_consumed_witness:
  "wf_df stale 3 \<and>
   getitem stale ''color'' = Some (ObjectCol [Text ''red'', Text ''blue'', Text ''red'']) \<and>
   getitem stale ''color_Temp'' = Some (BoolCol [True, False, True]) \<and>
   (\<exists>T cats. onehot_encode whole_float_str stale ''color'' = Inr (T, cats) \<and>
      ''color_Temp'' \<notin> set (labels T))"
proof -
  let ?col = "ObjectCol [Text ''red'', Text ''blue'', Text ''red'']"
  have wf: "wf_df stale 3" by (simp add: wf_df_def stale_def labels_def col_len_def)
  have g: "getitem stale ''color'' = Some ?col" by (simp add: stale_def)
  have t: "getitem stale ''color_Temp'' = Some (BoolCol [True, False, True])"
    by (simp add: stale_def)
  have n: "\<forall>u \<in> set (levels ?col). stringify whole_float_str u \<noteq> ''Temp''" by simp
  have "temp_column_name ''color'' = ''color_Temp''" by (simp add: temp_column_name_def)
  then show ?thesis
    using wf g t n temp_column_consumed [OF wf g, of whole_float_str] by metis
qed

subsection \<open>Claim C6\<close>

lemma setitem_same:
  assumes "distinct (labels df)" and "getitem df l = Some col"
  shows "setitem df l col = df"
proof -
  have mem: "l \<in> set (labels df)" using assms(2) getitem_None_iff [of df l] by auto
  have "map (\<lambda>(l', old). if l' = l then (l', col) else (l', old)) df = df"
  proof (rule map_idI)
    fix p assume p: "p \<in> set df"
    obtain a b where ab: "p = (a, b)" by (cases p)
    show "(case p of (l', old) \<Rightarrow> if l' = l then (l', col) else (l', old)) = p"
    proof (cases "a = l")
      case True
      then have "getitem df l = Some b" using assms(1) p ab by (simp add: getitem_distinct)
      then show ?thesis using assms(2) True ab by simp
    next
      case False
      then show ?thesis by (simp add: ab)
    qed
  qed
  then show ?thesis using mem by (simp add: setitem_def)
qed

lemma drop_cols_append: "drop_cols names (df @ df') = drop_cols names df @ drop_cols names df'"
  by (simp add: drop_cols_def)

lemma drop_cols_all:
  "set (labels df) \<subseteq> set names \<Longrightarrow> drop_cols names df = []"
  by (auto simp: drop_cols_def labels_def filter_empty_conv)

lemma labels_kept_not_category:
  "l \<in> set (labels (kept f df c col)) \<Longrightarrow> l \<notin> set (map (category_name f c) (unique (cells col)))"
  by (simp add: kept_def labels_drop_cols)

lemma dummies_are_categories:
  "set (labels (get_dummies_1d f col c)) \<subseteq> set (map (category_name f c) (unique (cells col)))"
  by (auto simp: labels_get_dummies_1d set_levels set_unique)

lemma kept_result:
  "kept f (kept f df c col @ get_dummies_1d f col c) c col = kept f df c col"
proof -
  let ?names = "temp_column_name c # map (category_name f c) (unique (cells col))"
  have "set (labels (get_dummies_1d f col c)) \<subseteq> set ?names"
    using dummies_are_categories [of f col c] by auto
  then have "drop_cols ?names (get_dummies_1d f col c) = []" by (rule drop_cols_all)
  moreover have "drop_cols ?names (drop_cols ?names df) = drop_cols ?names df"
    by (simp add: drop_cols_def)
  ultimately show ?thesis by (simp add: kept_def drop_cols_append)
qed

lemma distinct_labels_drop_cols: "distinct (labels df) \<Longrightarrow> distinct (labels (drop_cols names df))"
  by (simp add: labels_drop_cols)

text \<open>
  Claim C6. The call first drops the input columns that bear the name of a category,
  so none of them reaches the result. Putting the encoded column back into the result
  under its label and encoding again does not fail and returns the same list of
  categories and the same table, hence the same indicator columns.
\<close>

theorem reencode_same_result:
  assumes "wf_df df n" and "getitem df c = Some col"
  shows "\<exists>T cats. onehot_encode f df c = Inr (T, cats) \<and>
           T = kept f df c col @ get_dummies_1d f col c \<and>
           (\<forall>l \<in> set (labels (kept f df c col)). l \<notin> set cats) \<and>
           onehot_encode f (setitem T c col) c = Inr (T, cats)"
proof -
  let ?cats = "map (category_name f c) (unique (cells col))"
  let ?D = "get_dummies_1d f col c"
  let ?T = "kept f df c col @ ?D"
  have first: "onehot_encode f df c = Inr (?T, ?cats)" using assms(2) by (rule onehot_encode_Inr)
  have gk: "getitem (kept f df c col) c = Some col" using assms(2) by (rule getitem_kept)
  then have gT: "getitem ?T c = Some col" by (simp add: getitem_append)
  have dk: "distinct (labels (kept f df c col))"
    using assms(1) unfolding kept_def wf_df_def by (simp add: distinct_labels_drop_cols)
  have "setitem (kept f df c col) c col = kept f df c col" using dk gk by (rule setitem_same)
  moreover have "c \<in> set (labels (kept f df c col))"
    using gk getitem_None_iff [of "kept f df c col" c] by auto
  moreover have "map (\<lambda>(l', old). if l' = c then (l', col) else (l', old)) ?D = ?D"
  proof (rule map_idI)
    fix p assume "p \<in> set ?D"
    then obtain u where "p = (category_name f c u, indicator col u)"
      by (auto simp: get_dummies_1d_def)
    then show "(case p of (l', old) \<Rightarrow> if l' = c then (l', col) else (l', old)) = p"
      using category_name_neq [of f c u] by simp
  qed
  ultimately have same: "setitem ?T c col = ?T"
    by (simp add: setitem_def labels_def)
  have "onehot_encode f ?T c = Inr (kept f ?T c col @ ?D, ?cats)"
    using gT by (rule onehot_encode_Inr)
  then have second: "onehot_encode f (setitem ?T c col) c = Inr (?T, ?cats)"
    by (simp add: same kept_result)
  have "\<forall>l \<in> set (labels (kept f df c col)). l \<notin> set ?cats"
    using labels_kept_not_category by blast
  with first second show ?thesis by blast
qed

text \<open>
  The frame that already holds a column color_red and a column color_Temp: both calls
  succeed with the same result.
\<close>

theorem reencode_same_result_witness:
  "wf_df stale 3 \<and>
   getitem stale ''color'' = Some (ObjectCol [Text ''red'', Text ''blue'', Text ''red'']) \<and>
   (\<exists>T cats. onehot_encode whole_float_str stale ''color'' = Inr (T, cats) \<and>
      onehot_encode whole_float_str
        (setitem T ''color'' (ObjectCol [Text ''red'', Text ''blue'', Text ''red''])) ''color''
      = Inr (T, cats))"
proof -
  have wf: "wf_df stale 3" by (simp add: wf_df_def stale_def labels_def col_len_def)
  have g: "getitem stale ''color'' = Some (ObjectCol [Text ''red'', Text ''blue'', Text ''red''])"
    by (simp add: stale_def)
  show ?thesis
    using wf g reencode_same_result [OF wf g, of whole_float_str] by blast
qed

subsection \<open>Claim C8\<close>

lemma get_dummies_setitem:
  "get_dummies f (setitem d t col) c [t] = Inr (drop_cols [t] d @ get_dummies_1d f col c)"
  by (simp add: get_dummies_def labels_setitem getitem_setitem_same drop_cols_setitem)

lemma onehot_encode_store_Inl:
  assumes "getitem (h ! a) c = None"
  shows "onehot_encode_store f h a c = (h, Inl KeyError)"
  using assms by (simp add: onehot_encode_store_def)

lemma onehot_encode_store_Inr:
  assumes "getitem (h ! a) c = Some col"
  shows "onehot_encode_store f h a c =
         (h @ [setitem (drop_cols (map (category_name f c) (unique (cells col))) (h ! a))
                 (temp_column_name c) col,
               kept f (h ! a) c col @ get_dummies_1d f col c],
          Inr (Suc (length h), map (category_name f c) (unique (cells col))))"
proof -
  let ?cats = "map (category_name f c) (unique (cells col))"
  let ?df1 = "drop_cols ?cats (h ! a)"
  have "c \<notin> set ?cats"
  proof
    assume "c \<in> set ?cats"
    then obtain v where "c = category_name f c v" by auto
    then show False using category_name_neq [of f c v] by simp
  qed
  then have g1: "getitem ?df1 c = Some col" using assms by (simp add: getitem_drop_cols)
  show ?thesis
    using assms g1
    by (simp add: onehot_encode_store_def alloc_def Let_def get_dummies_setitem kept_def
        drop_cols_drop_cols)
qed

text \<open>
  Claim C8. Run on a store, the call leaves every object that existed before it as it
  was, the input frame among them. When it fails the store is unchanged altogether;
  when it succeeds the table it returns is a new object, and it is the table the
  function on values computes.
\<close>

theorem input_frame_not_mutated:
  assumes "a < length h" and "wf_df (h ! a) n"
  shows "\<exists>h' r. onehot_encode_store f h a c = (h', r) \<and>
           take (length h) h' = h \<and> h' ! a = h ! a \<and>
           (case r of
              Inl e \<Rightarrow> h' = h \<and> onehot_encode f (h ! a) c = Inl e
            | Inr (a', cats) \<Rightarrow> length h \<le> a' \<and> a' < length h' \<and>
                onehot_encode f (h ! a) c = Inr (h' ! a', cats))"
proof (cases "getitem (h ! a) c")
  case None
  then have "onehot_encode f (h ! a) c = Inl KeyError" by (simp add: onehot_encode_def)
  then show ?thesis using onehot_encode_store_Inl [OF None, of f] by simp
next
  case (Some col)
  let ?x = "setitem (drop_cols (map (category_name f c) (unique (cells col))) (h ! a))
              (temp_column_name c) col"
  let ?y = "kept f (h ! a) c col @ get_dummies_1d f col c"
  have "(h @ [?x, ?y]) ! a = h ! a" using assms(1) by (simp add: nth_append)
  moreover have "(h @ [?x, ?y]) ! Suc (length h) = ?y" by (simp add: nth_append)
  ultimately show ?thesis
    using onehot_encode_store_Inr [OF Some, of f] onehot_encode_Inr [OF Some, of f]
    by simp
qed

theorem input_frame_not_mutated_witness:
  "(0::nat) < length [stale] \<and> wf_df ([stale] ! 0) 3 \<and>
   (\<exists>h' a' cats. onehot_encode_store whole_float_str [stale] 0 ''color'' = (h', Inr (a', cats)) \<and>
      h' ! 0 = stale \<and> 1 \<le> a' \<and>
      onehot_encode whole_float_str stale ''color'' = Inr (h' ! a', cats)) \<and>
   onehot_encode_store whole_float_str [stale] 0 ''size'' = ([stale], Inl KeyError)"
proof -
  have a: "(0::nat) < length [stale]" by simp
  have wf: "wf_df ([stale] ! 0) 3" by (simp add: wf_df_def stale_def labels_def col_len_def)
  have ok: "\<exists>T cats. onehot_encode whole_float_str stale ''color'' = Inr (T, cats)"
    by (simp add: onehot_encode_Inr stale_def)
  have ko: "onehot_encode whole_float_str stale ''size'' = Inl KeyError"
    by (simp add: onehot_encode_def stale_def)
  obtain h1 r1 where 1: "onehot_encode_store whole_float_str [stale] 0 ''color'' = (h1, r1)"
    and 2: "h1 ! 0 = [stale] ! 0"
    and 3: "(case r1 of
              Inl e \<Rightarrow> h1 = [stale] \<and> onehot_encode whole_float_str ([stale] ! 0) ''color'' = Inl e
            | Inr (a', cats) \<Rightarrow> length [stale] \<le> a' \<and> a' < length h1 \<and>
                onehot_encode whole_float_str ([stale] ! 0) ''color'' = Inr (h1 ! a', cats))"
    using input_frame_not_mutated [OF a wf, of whole_float_str "''color''"] by blast
  obtain h2 r2 where 4: "onehot_encode_store whole_float_str [stale] 0 ''size'' = (h2, r2)"
    and 5: "(case r2 of
              Inl e \<Rightarrow> h2 = [stale] \<and> onehot_encode whole_float_str ([stale] ! 0) ''size'' = Inl e
            | Inr (a', cats) \<Rightarrow> length [stale] \<le> a' \<and> a' < length h2 \<and>
                onehot_encode whole_float_str ([stale] ! 0) ''size'' = Inr (h2 ! a', cats))"
    using input_frame_not_mutated [OF a wf, of whole_float_str "''size''"] by blast
  from 3 ok obtain a' cats where r1: "r1 = Inr (a', cats)" "1 \<le> a'"
    "onehot_encode whole_float_str stale ''color'' = Inr (h1 ! a', cats)"
    by (cases r1) auto
  from 5 ko have r2: "h2 = [stale]" "r2 = Inl KeyError"
    by (cases r2; auto)+
  show ?thesis using a wf 1 2 4 r1 r2 by auto
qed

end
